theory Spec2Isabelle
  imports Main
begin

section \<open>Data model\<close>

text \<open>
  The server (the Hono application of the repository) keeps, for every room, a list of
  users under the key \<open>room:<roomId>:users\<close> and a list of messages under the key
  \<open>room:<roomId>:messages\<close>. The shapes of the entries are the client's interfaces
  \<open>User\<close> and \<open>Message\<close>; the fields carry a prefix here because the request body
  uses the same names.
\<close>

record user =
  u_userId :: string
  u_username :: string
  u_joinedAt :: int

record message =
  m_id :: string
  m_userId :: string
  m_username :: string
  m_message :: string
  m_imageUrl :: "string option"
  m_timestamp :: int

text \<open>
  The fields a POST handler destructures from the JSON value of the request body. A
  field that is absent (or \<open>null\<close>) is \<open>None\<close>. Fields that are present are strings,
  as the client sends them.
\<close>

record body =
  roomId :: "string option"
  username :: "string option"
  userId :: "string option"
  message :: "string option"
  imageUrl :: "string option"

text \<open>
  What \<open>await c.req.json()\<close> makes of the request: it throws when the body is missing
  or is not JSON (\<open>NoJson\<close>); it returns \<open>null\<close> for the body \<open>null\<close>, and destructuring
  \<open>null\<close> throws (\<open>JsonNull\<close>); from any other JSON value the destructuring reads the
  fields, those the value does not have being absent (\<open>JsonValue\<close>).
\<close>

datatype request = NoJson | JsonNull | JsonValue body

text \<open>JavaScript truthiness of such a field: \<open>undefined\<close>, \<open>null\<close> and \<open>""\<close> are falsy.\<close>

definition truthy :: "string option \<Rightarrow> bool" where
  "truthy v = (case v of None \<Rightarrow> False | Some x \<Rightarrow> x \<noteq> [])"

text \<open>What a handler answers: \<open>c.json(payload)\<close>, or \<open>c.json({ error }, status)\<close>.\<close>

datatype 'a response = Json (payload: 'a) | Failed (status: nat) (error: string)

section \<open>The key-value store\<close>

datatype kv_call =
    Get string
  | SetUsers string "user list"
  | SetMessages string "message list"

text \<open>
  Modelled from the spec: the module \<open>kv_store.tsx\<close> (\<open>kv.get\<close>, \<open>kv.set\<close>) is imported
  by the server but is not among the sources. The spec gives its contract:
  \<open>get(key) -> value-or-absent\<close>, \<open>set(key, value) -> ok-or-error\<close>, whole values, no
  partial updates. The two families of keys used here never coincide (lemma
  \<open>usersKey_neq_messagesKey\<close>), so the store is held as one typed map per family. A store
  that is not \<open>available\<close> throws on every call; \<open>calls\<close> is the trace of the calls the
  store has answered.
\<close>

record store =
  users_kv :: "string \<rightharpoonup> user list"
  messages_kv :: "string \<rightharpoonup> message list"
  available :: bool
  calls :: "kv_call list"

definition kv_get_users :: "store \<Rightarrow> string \<Rightarrow> (user list option \<times> store) option" where
  "kv_get_users s k =
     (if available s then Some (users_kv s k, s\<lparr>calls := calls s @ [Get k]\<rparr>) else None)"

definition kv_set_users :: "store \<Rightarrow> string \<Rightarrow> user list \<Rightarrow> store option" where
  "kv_set_users s k v =
     (if available s
      then Some (s\<lparr>users_kv := (users_kv s)(k \<mapsto> v), calls := calls s @ [SetUsers k v]\<rparr>)
      else None)"

definition kv_get_messages :: "store \<Rightarrow> string \<Rightarrow> (message list option \<times> store) option" where
  "kv_get_messages s k =
     (if available s then Some (messages_kv s k, s\<lparr>calls := calls s @ [Get k]\<rparr>) else None)"

definition kv_set_messages :: "store \<Rightarrow> string \<Rightarrow> message list \<Rightarrow> store option" where
  "kv_set_messages s k v =
     (if available s
      then Some (s\<lparr>messages_kv := (messages_kv s)(k \<mapsto> v),
                  calls := calls s @ [SetMessages k v]\<rparr>)
      else None)"

text \<open>The idiom \<open>(await kv.get(key)) || []\<close>: an absent value reads as the empty list.\<close>

definition or_empty :: "'a list option \<Rightarrow> 'a list" where
  "or_empty v = (case v of None \<Rightarrow> [] | Some xs \<Rightarrow> xs)"

definition usersKey :: "string \<Rightarrow> string" where
  "usersKey r = ''room:'' @ r @ '':users''"

definition messagesKey :: "string \<Rightarrow> string" where
  "messagesKey r = ''room:'' @ r @ '':messages''"

section \<open>Template literals\<close>

text \<open>
  \<open>`${Date.now()}-${userId}`\<close> writes the clock reading, an integer number of
  milliseconds, in decimal.
\<close>

definition digit :: "nat \<Rightarrow> char" where
  "digit d = ''0123456789'' ! d"

function string_of_nat :: "nat \<Rightarrow> string" where
  "string_of_nat n =
     (if n < 10 then [digit n] else string_of_nat (n div 10) @ [digit (n mod 10)])"
  by pat_completeness auto
termination
  by (relation "measure id") auto

definition string_of_int :: "int \<Rightarrow> string" where
  "string_of_int i =
     (if i < 0 then ''-'' @ string_of_nat (nat (- i)) else string_of_nat (nat i))"

section \<open>The handlers\<close>

text \<open>
  Every handler takes the store and returns the store it leaves and its answer.
  \<open>Date.now()\<close> is an argument: one per call of it in the handler. An exception thrown
  inside the \<open>try\<close> block (by \<open>c.req.json()\<close>, by the destructuring of \<open>null\<close>, or by
  the store) is answered with status 500.
  After the check of the required fields each of them is a non-empty string; the \<open>case\<close>
  only names them, and its last branch is never taken.
\<close>

text \<open>POST \<open>/join-room\<close>.\<close>

definition join_room :: "store \<Rightarrow> int \<Rightarrow> request \<Rightarrow> store \<times> unit response" where
  "join_room s now q =
     (case q of
        NoJson \<Rightarrow> (s, Failed 500 ''Failed to join room'')
      | JsonNull \<Rightarrow> (s, Failed 500 ''Failed to join room'')
      | JsonValue b \<Rightarrow>
          (if \<not> truthy (roomId b) \<or> \<not> truthy (username b) \<or> \<not> truthy (userId b)
           then (s, Failed 400 ''Missing required fields'')
           else
             case (roomId b, username b, userId b) of
               (Some r, Some n, Some u) \<Rightarrow>
                 (case kv_get_users s (usersKey r) of
                    None \<Rightarrow> (s, Failed 500 ''Failed to join room'')
                  | Some (v, s1) \<Rightarrow>
                      let users = or_empty v;
                          filteredUsers = filter (\<lambda>e. u_userId e \<noteq> u) users;
                          newUser = \<lparr>u_userId = u, u_username = n, u_joinedAt = now\<rparr>
                      in (case kv_set_users s1 (usersKey r) (filteredUsers @ [newUser]) of
                            None \<Rightarrow> (s1, Failed 500 ''Failed to join room'')
                          | Some s2 \<Rightarrow> (s2, Json ())))
             | _ \<Rightarrow> (s, Failed 400 ''Missing required fields'')))"

text \<open>POST \<open>/leave-room\<close>.\<close>

definition leave_room :: "store \<Rightarrow> request \<Rightarrow> store \<times> unit response" where
  "leave_room s q =
     (case q of
        NoJson \<Rightarrow> (s, Failed 500 ''Failed to leave room'')
      | JsonNull \<Rightarrow> (s, Failed 500 ''Failed to leave room'')
      | JsonValue b \<Rightarrow>
          (if \<not> truthy (roomId b) \<or> \<not> truthy (userId b)
           then (s, Failed 400 ''Missing required fields'')
           else
             case (roomId b, userId b) of
               (Some r, Some u) \<Rightarrow>
                 (case kv_get_users s (usersKey r) of
                    None \<Rightarrow> (s, Failed 500 ''Failed to leave room'')
                  | Some (v, s1) \<Rightarrow>
                      let users = or_empty v;
                          filteredUsers = filter (\<lambda>e. u_userId e \<noteq> u) users
                      in (case kv_set_users s1 (usersKey r) filteredUsers of
                            None \<Rightarrow> (s1, Failed 500 ''Failed to leave room'')
                          | Some s2 \<Rightarrow> (s2, Json ())))
             | _ \<Rightarrow> (s, Failed 400 ''Missing required fields'')))"

text \<open>GET \<open>/active-users/:roomId\<close>. The room is the path parameter.\<close>

definition active_users :: "store \<Rightarrow> int \<Rightarrow> string \<Rightarrow> store \<times> user list response" where
  "active_users s now r =
     (case kv_get_users s (usersKey r) of
        None \<Rightarrow> (s, Failed 500 ''Failed to fetch active users'')
      | Some (v, s1) \<Rightarrow>
          let users = or_empty v;
              fiveMinutesAgo = now - 5 * 60 * 1000;
              activeUsers = filter (\<lambda>e. u_joinedAt e > fiveMinutesAgo) users
          in if length activeUsers \<noteq> length users
             then (case kv_set_users s1 (usersKey r) activeUsers of
                     None \<Rightarrow> (s1, Failed 500 ''Failed to fetch active users'')
                   | Some s2 \<Rightarrow> (s2, Json activeUsers))
             else (s1, Json activeUsers))"

text \<open>
  POST \<open>/send-message\<close>. The handler reads the clock twice: \<open>t_id\<close> for the identifier,
  \<open>t_ts\<close> for the timestamp. \<open>imageUrl || undefined\<close> drops a falsy image reference.
  \<open>messages.splice(0, messages.length - 100)\<close> removes that many entries from the front.
\<close>

definition newMessage ::
  "int \<Rightarrow> int \<Rightarrow> string \<Rightarrow> string \<Rightarrow> string \<Rightarrow> string option \<Rightarrow> message" where
  "newMessage t_id t_ts u n m img =
     \<lparr>m_id = string_of_int t_id @ ''-'' @ u,
      m_userId = u,
      m_username = n,
      m_message = m,
      m_imageUrl = (if truthy img then img else None),
      m_timestamp = t_ts\<rparr>"

definition send_message :: "store \<Rightarrow> int \<Rightarrow> int \<Rightarrow> request \<Rightarrow> store \<times> message response" where
  "send_message s t_id t_ts q =
     (case q of
        NoJson \<Rightarrow> (s, Failed 500 ''Failed to send message'')
      | JsonNull \<Rightarrow> (s, Failed 500 ''Failed to send message'')
      | JsonValue b \<Rightarrow>
          (if \<not> truthy (roomId b) \<or> \<not> truthy (username b) \<or> \<not> truthy (userId b)
              \<or> \<not> truthy (message b)
           then (s, Failed 400 ''Missing required fields'')
           else
             case (roomId b, username b, userId b, message b) of
               (Some r, Some n, Some u, Some m) \<Rightarrow>
                 (case kv_get_messages s (messagesKey r) of
                    None \<Rightarrow> (s, Failed 500 ''Failed to send message'')
                  | Some (v, s1) \<Rightarrow>
                      let messages = or_empty v;
                          newMsg = newMessage t_id t_ts u n m (imageUrl b);
                          pushed = messages @ [newMsg];
                          kept = (if length pushed > 100
                                  then drop (length pushed - 100) pushed else pushed)
                      in (case kv_set_messages s1 (messagesKey r) kept of
                            None \<Rightarrow> (s1, Failed 500 ''Failed to send message'')
                          | Some s2 \<Rightarrow> (s2, Json newMsg)))
             | _ \<Rightarrow> (s, Failed 400 ''Missing required fields'')))"

text \<open>GET \<open>/messages/:roomId\<close>.\<close>

definition get_messages :: "store \<Rightarrow> string \<Rightarrow> store \<times> message list response" where
  "get_messages s r =
     (case kv_get_messages s (messagesKey r) of
        None \<Rightarrow> (s, Failed 500 ''Failed to fetch messages'')
      | Some (v, s1) \<Rightarrow> (s1, Json (or_empty v)))"

section \<open>Sequences of calls\<close>

text \<open>
  Calls are served one at a time: each handler runs on the store the previous one left.
  The answers are collected in the order of the calls. Every call of a sequence carries
  a JSON value with the given fields.
\<close>

fun send_all :: "store \<Rightarrow> (int \<times> int \<times> body) list \<Rightarrow> store \<times> message response list" where
  "send_all s [] = (s, [])"
| "send_all s ((t_id, t_ts, b) # xs) =
     (let (s1, a) = send_message s t_id t_ts (JsonValue b);
          (s2, as) = send_all s1 xs
      in (s2, a # as))"

fun join_all :: "store \<Rightarrow> (int \<times> body) list \<Rightarrow> store \<times> unit response list" where
  "join_all s [] = (s, [])"
| "join_all s ((now, b) # xs) =
     (let (s1, a) = join_room s now (JsonValue b);
          (s2, as) = join_all s1 xs
      in (s2, a # as))"

section \<open>Example stores and requests\<close>

definition empty_store :: store where
  "empty_store = \<lparr>users_kv = Map.empty, messages_kv = Map.empty, available = True, calls = []\<rparr>"

definition alice_hi :: body where
  "alice_hi = \<lparr>roomId = Some ''general'', username = Some ''alice'', userId = Some ''u1'',
                message = Some ''hi'', imageUrl = None\<rparr>"

definition alice_image_only :: body where
  "alice_image_only = \<lparr>roomId = Some ''general'', username = Some ''alice'',
                        userId = Some ''u1'', message = Some [],
                        imageUrl = Some ''https://example.org/cat.png''\<rparr>"

definition alice_empty_image :: body where
  "alice_empty_image = \<lparr>roomId = Some ''general'', username = Some ''alice'',
                         userId = Some ''u1'', message = Some ''hi'', imageUrl = Some []\<rparr>"

definition nameless :: body where
  "nameless = \<lparr>roomId = Some ''general'', username = None, userId = Some ''u1'',
                message = Some ''hi'', imageUrl = None\<rparr>"

definition alice :: "int \<Rightarrow> user" where
  "alice t = \<lparr>u_userId = ''u1'', u_username = ''alice'', u_joinedAt = t\<rparr>"

definition bob :: "int \<Rightarrow> user" where
  "bob t = \<lparr>u_userId = ''u2'', u_username = ''bob'', u_joinedAt = t\<rparr>"

definition carol :: "int \<Rightarrow> user" where
  "carol t = \<lparr>u_userId = ''u3'', u_username = ''carol'', u_joinedAt = t\<rparr>"

text \<open>
  A room read at time 1000000 (cutoff 700000): alice announced 100 seconds ago, bob
  exactly five minutes ago, carol ten minutes ago.
\<close>

definition general_store :: store where
  "general_store =
     \<lparr>users_kv = [usersKey ''general'' \<mapsto> [alice 900000, bob 700000, carol 400000]],
      messages_kv = Map.empty, available = True, calls = []\<rparr>"

definition fresh_store :: store where
  "fresh_store =
     \<lparr>users_kv = [usersKey ''general'' \<mapsto> [alice 900000, bob 800000]],
      messages_kv = Map.empty, available = True, calls = []\<rparr>"

definition alice_with_image :: body where
  "alice_with_image = \<lparr>roomId = Some ''general'', username = Some ''alice'',
                        userId = Some ''u1'', message = Some ''look'',
                        imageUrl = Some ''https://example.org/cat.png''\<rparr>"

definition bob_leaves :: body where
  "bob_leaves = \<lparr>roomId = Some ''general'', username = None, userId = Some ''u2'',
                  message = None, imageUrl = None\<rparr>"

definition stranger_leaves :: body where
  "stranger_leaves = \<lparr>roomId = Some ''general'', username = None, userId = Some ''u9'',
                       message = None, imageUrl = None\<rparr>"

text \<open>101 messages from alice, one per millisecond.\<close>

definition hundred_and_one :: "(int \<times> int \<times> body) list" where
  "hundred_and_one = map (\<lambda>i. (int i, int i, alice_hi)) [0..<101]"

section \<open>Facts about keys and handlers\<close>

lemma usersKey_neq_messagesKey: "usersKey r \<noteq> messagesKey r'"
proof
  assume "usersKey r = messagesKey r'"
  then have "rev (usersKey r) = rev (messagesKey r')" by simp
  then show False by (simp add: usersKey_def messagesKey_def)
qed

lemma usersKey_inj: "usersKey r = usersKey r' \<longleftrightarrow> r = r'"
  by (simp add: usersKey_def)

lemma messagesKey_inj: "messagesKey r = messagesKey r' \<longleftrightarrow> r = r'"
  by (simp add: messagesKey_def)

text \<open>What each handler does on a well-formed request while the store answers.\<close>

lemma join_room_valid:
  assumes "available s" "roomId b = Some r" "username b = Some n" "userId b = Some u"
    "r \<noteq> []" "n \<noteq> []" "u \<noteq> []"
  shows "join_room s now (JsonValue b) =
    (s\<lparr>users_kv := (users_kv s)(usersKey r \<mapsto>
          filter (\<lambda>e. u_userId e \<noteq> u) (or_empty (users_kv s (usersKey r)))
            @ [\<lparr>u_userId = u, u_username = n, u_joinedAt = now\<rparr>]),
        calls := calls s @ [Get (usersKey r),
          SetUsers (usersKey r)
            (filter (\<lambda>e. u_userId e \<noteq> u) (or_empty (users_kv s (usersKey r)))
               @ [\<lparr>u_userId = u, u_username = n, u_joinedAt = now\<rparr>])]\<rparr>, Json ())"
  using assms
  by (simp add: join_room_def truthy_def kv_get_users_def kv_set_users_def Let_def)

lemma leave_room_valid:
  assumes "available s" "roomId b = Some r" "userId b = Some u" "r \<noteq> []" "u \<noteq> []"
  shows "leave_room s (JsonValue b) =
    (s\<lparr>users_kv := (users_kv s)(usersKey r \<mapsto>
          filter (\<lambda>e. u_userId e \<noteq> u) (or_empty (users_kv s (usersKey r)))),
        calls := calls s @ [Get (usersKey r),
          SetUsers (usersKey r)
            (filter (\<lambda>e. u_userId e \<noteq> u) (or_empty (users_kv s (usersKey r))))]\<rparr>,
     Json ())"
  using assms
  by (simp add: leave_room_def truthy_def kv_get_users_def kv_set_users_def Let_def)

lemma active_users_available:
  assumes "available s"
  shows "active_users s now r =
    (let loaded = or_empty (users_kv s (usersKey r));
         kept = filter (\<lambda>e. u_joinedAt e > now - 300000) loaded
     in (if length kept \<noteq> length loaded
         then s\<lparr>users_kv := (users_kv s)(usersKey r \<mapsto> kept),
                calls := calls s @ [Get (usersKey r), SetUsers (usersKey r) kept]\<rparr>
         else s\<lparr>calls := calls s @ [Get (usersKey r)]\<rparr>, Json kept))"
  using assms
  by (simp add: active_users_def kv_get_users_def kv_set_users_def Let_def)

lemma send_message_valid:
  assumes "available s" "roomId b = Some r" "username b = Some n" "userId b = Some u"
    "message b = Some m" "r \<noteq> []" "n \<noteq> []" "u \<noteq> []" "m \<noteq> []"
  shows "send_message s t1 t2 (JsonValue b) =
    (let pushed = or_empty (messages_kv s (messagesKey r))
                    @ [newMessage t1 t2 u n m (imageUrl b)];
         kept = drop (length pushed - 100) pushed
     in (s\<lparr>messages_kv := (messages_kv s)(messagesKey r \<mapsto> kept),
           calls := calls s @ [Get (messagesKey r), SetMessages (messagesKey r) kept]\<rparr>,
         Json (newMessage t1 t2 u n m (imageUrl b))))"
  using assms
  by (simp add: send_message_def truthy_def kv_get_messages_def kv_set_messages_def Let_def)

lemma get_messages_available:
  assumes "available s"
  shows "get_messages s r =
    (s\<lparr>calls := calls s @ [Get (messagesKey r)]\<rparr>,
     Json (or_empty (messages_kv s (messagesKey r))))"
  using assms
  by (simp add: get_messages_def kv_get_messages_def)

text \<open>Cutting to the last 100 after every push is cutting once at the end.\<close>

lemma trim_trim:
  "drop (length (drop (length xs - 100) xs @ ys) - 100) (drop (length xs - 100) xs @ ys)
     = drop (length (xs @ ys) - 100) (xs @ (ys::'a list))"
  by (cases "length xs \<le> 100") (auto simp: add.commute)

text \<open>Reading a value with the default, and truthiness, as equations.\<close>

lemma or_empty_simps [simp]: "or_empty None = []" "or_empty (Some xs) = xs"
  by (simp_all add: or_empty_def)

lemma truthy_Some: "truthy v \<longleftrightarrow> (\<exists>x. v = Some x \<and> x \<noteq> [])"
  by (cases v) (simp_all add: truthy_def)

text \<open>One call of \<open>send_message\<close>, and a sequence of them, on the log of a room.\<close>

lemma send_message_step:
  assumes "available s" "r \<noteq> []" "roomId b = Some r"
    "truthy (username b)" "truthy (userId b)" "truthy (message b)"
  shows "\<exists>m. snd (send_message s t1 t2 (JsonValue b)) = Json m
           \<and> available (fst (send_message s t1 t2 (JsonValue b)))
           \<and> or_empty (messages_kv (fst (send_message s t1 t2 (JsonValue b))) (messagesKey r))
               = drop (length (or_empty (messages_kv s (messagesKey r)) @ [m]) - 100)
                   (or_empty (messages_kv s (messagesKey r)) @ [m])"
proof -
  from assms obtain n u m where
    b: "username b = Some n" "userId b = Some u" "message b = Some m"
       "n \<noteq> []" "u \<noteq> []" "m \<noteq> []"
    by (auto simp: truthy_Some)
  show ?thesis
    using assms(1)
    by (simp add: send_message_valid [OF assms(1) assms(3) b(1,2,3) assms(2) b(4,5,6)] Let_def)
qed

lemma send_all_log:
  assumes "available s" "r \<noteq> []"
    "\<forall>(t_id, t_ts, b) \<in> set xs.
        roomId b = Some r \<and> truthy (username b) \<and> truthy (userId b) \<and> truthy (message b)"
    "length (or_empty (messages_kv s (messagesKey r))) \<le> 100"
  shows "length (snd (send_all s xs)) = length xs
         \<and> (\<forall>a \<in> set (snd (send_all s xs)). \<exists>m. a = Json m)
         \<and> available (fst (send_all s xs))
         \<and> or_empty (messages_kv (fst (send_all s xs)) (messagesKey r))
             = drop (length (or_empty (messages_kv s (messagesKey r))
                               @ map payload (snd (send_all s xs))) - 100)
                 (or_empty (messages_kv s (messagesKey r)) @ map payload (snd (send_all s xs)))"
  using assms
proof (induction xs arbitrary: s)
  case Nil
  then show ?case by simp
next
  case (Cons x xs)
  obtain t1 t2 b where x: "x = (t1, t2, b)" by (cases x) auto
  let ?s1 = "fst (send_message s t1 t2 (JsonValue b))"
  let ?L = "or_empty (messages_kv s (messagesKey r))"
  from Cons.prems x have v: "roomId b = Some r" "truthy (username b)" "truthy (userId b)"
    "truthy (message b)" by auto
  from send_message_step [OF Cons.prems(1,2) v, of t1 t2] obtain m where
    m: "snd (send_message s t1 t2 (JsonValue b)) = Json m" "available ?s1"
       "or_empty (messages_kv ?s1 (messagesKey r)) = drop (length (?L @ [m]) - 100) (?L @ [m])"
    by blast
  have len: "length (or_empty (messages_kv ?s1 (messagesKey r))) \<le> 100"
    using Cons.prems(4) by (simp add: m(3))
  have rest: "\<forall>(t_id, t_ts, b) \<in> set xs.
        roomId b = Some r \<and> truthy (username b) \<and> truthy (userId b) \<and> truthy (message b)"
    using Cons.prems(3) by simp
  note IH = Cons.IH [OF m(2) Cons.prems(2) rest len]
  have unfold: "send_all s (x # xs) =
      (fst (send_all ?s1 xs), Json m # snd (send_all ?s1 xs))"
    using m(1) by (simp add: x split_beta Let_def)
  have "drop (length (drop (length (?L @ [m]) - 100) (?L @ [m])
                       @ map payload (snd (send_all ?s1 xs))) - 100)
          (drop (length (?L @ [m]) - 100) (?L @ [m]) @ map payload (snd (send_all ?s1 xs)))
        = drop (length ((?L @ [m]) @ map payload (snd (send_all ?s1 xs))) - 100)
            ((?L @ [m]) @ map payload (snd (send_all ?s1 xs)))"
    by (rule trim_trim)
  with IH show ?case
    by (simp add: unfold m(3))
qed

lemma send_message_timestamp:
  assumes "available s" "truthy (roomId b)"
    "truthy (username b)" "truthy (userId b)" "truthy (message b)"
  shows "m_timestamp (payload (snd (send_message s t1 t2 (JsonValue b)))) = t2
         \<and> available (fst (send_message s t1 t2 (JsonValue b)))"
proof -
  from assms obtain r n u m where
    b: "roomId b = Some r" "username b = Some n" "userId b = Some u" "message b = Some m"
       "r \<noteq> []" "n \<noteq> []" "u \<noteq> []" "m \<noteq> []"
    by (auto simp: truthy_Some)
  show ?thesis
    using assms(1)
    by (simp add: send_message_valid [OF assms(1) b] Let_def newMessage_def)
qed

lemma send_all_timestamps:
  assumes "available s"
    "\<forall>(t_id, t_ts, b) \<in> set xs.
        truthy (roomId b) \<and> truthy (username b) \<and> truthy (userId b) \<and> truthy (message b)"
  shows "map (\<lambda>a. m_timestamp (payload a)) (snd (send_all s xs)) = map (\<lambda>(t_id, t_ts, b). t_ts) xs"
  using assms
proof (induction xs arbitrary: s)
  case Nil
  then show ?case by simp
next
  case (Cons x xs)
  obtain t1 t2 b where x: "x = (t1, t2, b)" by (cases x) auto
  from Cons.prems x have v: "truthy (roomId b)" "truthy (username b)" "truthy (userId b)"
    "truthy (message b)" by auto
  note st = send_message_timestamp [OF Cons.prems(1) v, of t1 t2]
  have rest: "\<forall>(t_id, t_ts, b) \<in> set xs.
        truthy (roomId b) \<and> truthy (username b) \<and> truthy (userId b) \<and> truthy (message b)"
    using Cons.prems(2) by simp
  from Cons.IH [OF _ rest, of "fst (send_message s t1 t2 (JsonValue b))"] st
  show ?case by (simp add: x split_beta Let_def)
qed

lemma hundred_and_one_valid:
  "\<forall>(t_id, t_ts, b) \<in> set hundred_and_one.
      roomId b = Some ''general'' \<and> truthy (username b) \<and> truthy (userId b) \<and> truthy (message b)"
  by (auto simp: hundred_and_one_def alice_hi_def truthy_def)

lemma hundred_and_one_distinct:
  "distinct (map payload (snd (send_all empty_store hundred_and_one)))"
proof -
  have "map (\<lambda>a. m_timestamp (payload a)) (snd (send_all empty_store hundred_and_one))
          = map (\<lambda>(t_id, t_ts, b). t_ts) hundred_and_one"
    using hundred_and_one_valid
    by (intro send_all_timestamps) (auto simp: empty_store_def truthy_def)
  also have "\<dots> = map int [0..<101]"
    by (simp add: hundred_and_one_def)
  finally have "map m_timestamp (map payload (snd (send_all empty_store hundred_and_one)))
                  = map int [0..<101]"
    by (simp add: comp_def)
  moreover have "distinct (map int [0..<101])"
    by (simp add: distinct_map)
  ultimately have "distinct (map m_timestamp (map payload (snd (send_all empty_store hundred_and_one))))"
    by simp
  then show ?thesis
    by (rule distinct_map [THEN iffD1, THEN conjunct1])
qed

text \<open>Sequences of \<open>join_room\<close> calls.\<close>

lemma join_room_keeps_available: "available (fst (join_room s now (JsonValue b))) = available s"
  by (auto simp: join_room_def kv_get_users_def kv_set_users_def Let_def
           split: option.splits)

lemma join_all_keeps_available: "available (fst (join_all s xs)) = available s"
proof (induction xs arbitrary: s)
  case Nil
  then show ?case by simp
next
  case (Cons x xs)
  obtain t b where x: "x = (t, b)" by (cases x)
  from Cons.IH [of "fst (join_room s t (JsonValue b))"] show ?case
    by (simp add: x split_beta Let_def join_room_keeps_available)
qed

lemma join_all_append:
  "join_all s (xs @ ys) =
     (fst (join_all (fst (join_all s xs)) ys),
      snd (join_all s xs) @ snd (join_all (fst (join_all s xs)) ys))"
proof (induction xs arbitrary: s)
  case Nil
  then show ?case by simp
next
  case (Cons x xs)
  obtain t b where x: "x = (t, b)" by (cases x)
  from Cons.IH [of "fst (join_room s t (JsonValue b))"] show ?case
    by (simp add: x split_beta Let_def)
qed

lemma join_all_answers:
  assumes "available s"
    "\<forall>(t, b) \<in> set xs. truthy (roomId b) \<and> truthy (username b) \<and> truthy (userId b)"
  shows "\<forall>a \<in> set (snd (join_all s xs)). a = Json ()"
  using assms
proof (induction xs arbitrary: s)
  case Nil
  then show ?case by simp
next
  case (Cons x xs)
  obtain t b where x: "x = (t, b)" by (cases x)
  from Cons.prems x obtain r n u where
    b: "roomId b = Some r" "username b = Some n" "userId b = Some u"
       "r \<noteq> []" "n \<noteq> []" "u \<noteq> []"
    by (auto simp: truthy_Some)
  have ok: "snd (join_room s t (JsonValue b)) = Json ()"
    by (simp add: join_room_valid [OF Cons.prems(1) b])
  have av: "available (fst (join_room s t (JsonValue b)))"
    using Cons.prems(1) by (simp add: join_room_keeps_available)
  have rest: "\<forall>(t, b) \<in> set xs. truthy (roomId b) \<and> truthy (username b) \<and> truthy (userId b)"
    using Cons.prems(2) by simp
  from Cons.IH [OF av rest] ok show ?case
    by (simp add: x split_beta Let_def)
qed

lemma filter_same_user:
  "filter (\<lambda>e. u_userId e = u) (filter (\<lambda>e. u_userId e \<noteq> u) us @ [\<lparr>u_userId = u, u_username = n, u_joinedAt = t\<rparr>])
     = [\<lparr>u_userId = u, u_username = n, u_joinedAt = t\<rparr>]"
  by (simp add: filter_empty_conv)

text \<open>Two clock readings in decimal.\<close>

lemma string_of_int_1000: "string_of_int 1000 = ''1000''"
  by code_simp

lemma string_of_int_1001: "string_of_int 1001 = ''1001''"
  by code_simp

section \<open>Presence\<close>

text \<open>
  C2. \<open>active_users\<close> answers with the stored list filtered by the cutoff
  \<open>now - 5 * 60 * 1000\<close>: an entry whose \<open>joinedAt\<close> lies before the cutoff is not in the
  answer, and neither is an entry whose \<open>joinedAt\<close> is exactly the cutoff.
\<close>

theorem active_users_cutoff:
  assumes "available s"
  shows "snd (active_users s now r) =
           Json (filter (\<lambda>e. now - 5 * 60 * 1000 < u_joinedAt e)
                   (or_empty (users_kv s (usersKey r))))
         \<and> (\<forall>e. u_joinedAt e < now - 5 * 60 * 1000
                \<longrightarrow> e \<notin> set (payload (snd (active_users s now r))))
         \<and> (\<forall>e. u_joinedAt e = now - 5 * 60 * 1000
                \<longrightarrow> e \<notin> set (payload (snd (active_users s now r))))"
  using assms by (simp add: active_users_available Let_def)

theorem active_users_cutoff_witness:
  "available general_store
   \<and> snd (active_users general_store 1000000 ''general'') = Json [alice 900000]
   \<and> bob 700000 \<notin> set (payload (snd (active_users general_store 1000000 ''general'')))
   \<and> carol 400000 \<notin> set (payload (snd (active_users general_store 1000000 ''general'')))"
  using active_users_cutoff [of general_store 1000000 "''general''"]
  by (simp add: general_store_def or_empty_def alice_def bob_def carol_def)

text \<open>
  C7. \<open>active_users\<close> answers with the filtered list in every case. After reading the
  list it calls \<open>kv.set\<close> with the filtered list exactly when the filtered list and the
  loaded list differ in length; otherwise it issues no write and the stored lists are as
  they were.
\<close>

theorem active_users_lazy_eviction:
  assumes "available s"
  shows "snd (active_users s now r) =
           Json (filter (\<lambda>e. now - 5 * 60 * 1000 < u_joinedAt e)
                   (or_empty (users_kv s (usersKey r))))
         \<and> calls (fst (active_users s now r)) =
             calls s @ Get (usersKey r) #
               (if length (filter (\<lambda>e. now - 5 * 60 * 1000 < u_joinedAt e)
                             (or_empty (users_kv s (usersKey r))))
                     \<noteq> length (or_empty (users_kv s (usersKey r)))
                then [SetUsers (usersKey r)
                        (filter (\<lambda>e. now - 5 * 60 * 1000 < u_joinedAt e)
                           (or_empty (users_kv s (usersKey r))))]
                else [])
         \<and> users_kv (fst (active_users s now r)) =
             (if length (filter (\<lambda>e. now - 5 * 60 * 1000 < u_joinedAt e)
                             (or_empty (users_kv s (usersKey r))))
                     \<noteq> length (or_empty (users_kv s (usersKey r)))
              then (users_kv s)(usersKey r \<mapsto>
                     filter (\<lambda>e. now - 5 * 60 * 1000 < u_joinedAt e)
                       (or_empty (users_kv s (usersKey r))))
              else users_kv s)
         \<and> messages_kv (fst (active_users s now r)) = messages_kv s
         \<and> ((\<forall>e \<in> set (or_empty (users_kv s (usersKey r))).
                now - 5 * 60 * 1000 < u_joinedAt e)
              \<longrightarrow> fst (active_users s now r) = s\<lparr>calls := calls s @ [Get (usersKey r)]\<rparr>)"
  using assms by (simp add: active_users_available Let_def)

theorem active_users_lazy_eviction_witness:
  "available fresh_store \<and> available general_store
   \<and> snd (active_users fresh_store 1000000 ''general'') = Json [alice 900000, bob 800000]
   \<and> calls (fst (active_users fresh_store 1000000 ''general'')) = [Get (usersKey ''general'')]
   \<and> fst (active_users fresh_store 1000000 ''general'')
       = fresh_store\<lparr>calls := [Get (usersKey ''general'')]\<rparr>
   \<and> snd (active_users general_store 1000000 ''general'') = Json [alice 900000]
   \<and> calls (fst (active_users general_store 1000000 ''general''))
       = [Get (usersKey ''general''), SetUsers (usersKey ''general'') [alice 900000]]
   \<and> users_kv (fst (active_users general_store 1000000 ''general''))
       = [usersKey ''general'' \<mapsto> [alice 900000]]"
  using active_users_lazy_eviction [of fresh_store 1000000 "''general''"]
        active_users_lazy_eviction [of general_store 1000000 "''general''"]
  by (simp add: fresh_store_def general_store_def or_empty_def alice_def bob_def carol_def)

text \<open>
  C3. A well-formed \<open>join_room\<close> removes every entry of that user from the room's list
  and appends one entry with \<open>joinedAt\<close> set to the clock reading. So after any non-empty
  sequence of announcements of the same user in the same room, each of which succeeds,
  the stored list holds exactly one entry of that user, and \<open>active_users\<close>, called while
  the last announcement is within the five minutes, lists exactly one entry of that user:
  the one with the last announced time.
\<close>

theorem join_room_one_entry_per_user:
  assumes "available s" "r \<noteq> []" "u \<noteq> []"
    "\<forall>(t, b) \<in> set xs. roomId b = Some r \<and> userId b = Some u \<and> truthy (username b)"
    "xs \<noteq> []" "last xs = (t_last, b_last)" "username b_last = Some n"
    "now - 5 * 60 * 1000 < t_last"
    "join_all s xs = (s', answers)"
  shows "(\<forall>a \<in> set answers. a = Json ())
         \<and> filter (\<lambda>e. u_userId e = u) (or_empty (users_kv s' (usersKey r)))
             = [\<lparr>u_userId = u, u_username = n, u_joinedAt = t_last\<rparr>]
         \<and> (\<exists>us. snd (active_users s' now r) = Json us
               \<and> filter (\<lambda>e. u_userId e = u) us
                   = [\<lparr>u_userId = u, u_username = n, u_joinedAt = t_last\<rparr>])"
proof -
  have valid: "\<forall>(t, b) \<in> set xs. truthy (roomId b) \<and> truthy (username b) \<and> truthy (userId b)"
    using assms(2,3,4) by (auto simp: truthy_def)
  from join_all_answers [OF assms(1) valid] assms(9)
  have A: "\<forall>a \<in> set answers. a = Json ()" by simp
  from assms(5,6) have xs: "xs = butlast xs @ [(t_last, b_last)]"
    by (metis append_butlast_last_id)
  let ?s1 = "fst (join_all s (butlast xs))"
  have av: "available ?s1"
    using assms(1) by (simp add: join_all_keeps_available)
  from assms(4,5,6) have bl: "roomId b_last = Some r" "userId b_last = Some u"
    using last_in_set [of xs] by auto
  from assms(7) assms(4,5,6) have n: "n \<noteq> []"
    using last_in_set [of xs] by (auto simp: truthy_def)
  have "s' = fst (join_all s (butlast xs @ [(t_last, b_last)]))"
    using assms(9) xs by simp
  also have "\<dots> = fst (join_room ?s1 t_last (JsonValue b_last))"
    by (simp add: join_all_append split_beta Let_def)
  finally have s': "s' = fst (join_room ?s1 t_last (JsonValue b_last))" .
  have stored: "or_empty (users_kv s' (usersKey r))
      = filter (\<lambda>e. u_userId e \<noteq> u) (or_empty (users_kv ?s1 (usersKey r)))
          @ [\<lparr>u_userId = u, u_username = n, u_joinedAt = t_last\<rparr>]"
    unfolding s' by (simp add: join_room_valid [OF av bl(1) assms(7) bl(2) assms(2) n assms(3)])
  have avs': "available s'"
    unfolding s' using av by (simp add: join_room_keeps_available)
  have B: "filter (\<lambda>e. u_userId e = u) (or_empty (users_kv s' (usersKey r)))
             = [\<lparr>u_userId = u, u_username = n, u_joinedAt = t_last\<rparr>]"
    unfolding stored by (rule filter_same_user)
  have C: "\<exists>us. snd (active_users s' now r) = Json us
               \<and> filter (\<lambda>e. u_userId e = u) us
                   = [\<lparr>u_userId = u, u_username = n, u_joinedAt = t_last\<rparr>]"
    using assms(8)
    by (simp add: active_users_available [OF avs'] Let_def stored filter_empty_conv)
  from A B C show ?thesis by blast
qed

theorem join_room_one_entry_per_user_witness:
  "available empty_store
   \<and> last [(1000, alice_hi), (2000, alice_hi)] = (2000, alice_hi)
   \<and> (2000::int) - 5 * 60 * 1000 < 2000
   \<and> snd (join_all empty_store [(1000, alice_hi), (2000, alice_hi)]) = [Json (), Json ()]
   \<and> or_empty (users_kv (fst (join_all empty_store [(1000, alice_hi), (2000, alice_hi)]))
        (usersKey ''general'')) = [alice 2000]
   \<and> snd (active_users (fst (join_all empty_store [(1000, alice_hi), (2000, alice_hi)]))
        2000 ''general'') = Json [alice 2000]"
  using join_room_one_entry_per_user [of empty_store "''general''" "''u1''" "[(1000, alice_hi), (2000, alice_hi)]"
              2000 alice_hi "''alice''" 2000
              "fst (join_all empty_store [(1000, alice_hi), (2000, alice_hi)])"
              "snd (join_all empty_store [(1000, alice_hi), (2000, alice_hi)])"]
  by (simp add: empty_store_def alice_hi_def alice_def truthy_def join_room_def
        active_users_def kv_get_users_def kv_set_users_def Let_def)

text \<open>
  C6. A well-formed \<open>leave_room\<close> succeeds whether or not the user has an entry. When
  the user has none, the room's list reads as before; a second withdrawal changes
  nothing. Whatever was stored before, \<open>active_users\<close> called after the withdrawal
  lists no entry of that user.
\<close>

theorem leave_room_idempotent:
  assumes "available s" "roomId b = Some r" "userId b = Some u" "r \<noteq> []" "u \<noteq> []"
  shows "snd (leave_room s (JsonValue b)) = Json ()
         \<and> (u \<notin> u_userId ` set (or_empty (users_kv s (usersKey r)))
              \<longrightarrow> or_empty (users_kv (fst (leave_room s (JsonValue b))) (usersKey r))
                    = or_empty (users_kv s (usersKey r)))
         \<and> (\<forall>k. k \<noteq> usersKey r \<longrightarrow> users_kv (fst (leave_room s (JsonValue b))) k = users_kv s k)
         \<and> messages_kv (fst (leave_room s (JsonValue b))) = messages_kv s
         \<and> snd (leave_room (fst (leave_room s (JsonValue b))) (JsonValue b)) = Json ()
         \<and> users_kv (fst (leave_room (fst (leave_room s (JsonValue b))) (JsonValue b))) = users_kv (fst (leave_room s (JsonValue b)))
         \<and> (\<exists>us. snd (active_users (fst (leave_room s (JsonValue b))) now r) = Json us
                  \<and> u \<notin> u_userId ` set us)"
proof -
  have same: "\<And>us. filter (\<lambda>e. u_userId e \<noteq> u) us = us \<longleftrightarrow> u \<notin> u_userId ` set us"
    by (auto simp: filter_id_conv)
  have av: "available (fst (leave_room s (JsonValue b)))"
    using assms(1) by (simp add: leave_room_valid [OF assms])
  have twice: "snd (leave_room (fst (leave_room s (JsonValue b))) (JsonValue b)) = Json ()
       \<and> users_kv (fst (leave_room (fst (leave_room s (JsonValue b))) (JsonValue b))) = users_kv (fst (leave_room s (JsonValue b)))"
    by (simp add: leave_room_valid [OF av assms(2-)]) (simp add: leave_room_valid [OF assms])
  have once: "snd (leave_room s (JsonValue b)) = Json ()
         \<and> (u \<notin> u_userId ` set (or_empty (users_kv s (usersKey r)))
              \<longrightarrow> or_empty (users_kv (fst (leave_room s (JsonValue b))) (usersKey r))
                    = or_empty (users_kv s (usersKey r)))
         \<and> (\<forall>k. k \<noteq> usersKey r \<longrightarrow> users_kv (fst (leave_room s (JsonValue b))) k = users_kv s k)
         \<and> messages_kv (fst (leave_room s (JsonValue b))) = messages_kv s"
    by (simp add: leave_room_valid [OF assms] same)
  have listed: "\<exists>us. snd (active_users (fst (leave_room s (JsonValue b))) now r) = Json us
                  \<and> u \<notin> u_userId ` set us"
  proof -
    have st: "or_empty (users_kv (fst (leave_room s (JsonValue b))) (usersKey r))
                = filter (\<lambda>e. u_userId e \<noteq> u) (or_empty (users_kv s (usersKey r)))"
      by (simp add: leave_room_valid [OF assms])
    show ?thesis
      by (auto simp: active_users_available [OF av] Let_def st)
  qed
  from once twice listed show ?thesis by blast
qed

theorem leave_room_idempotent_witness:
  "available general_store
   \<and> snd (leave_room general_store (JsonValue stranger_leaves)) = Json ()
   \<and> or_empty (users_kv (fst (leave_room general_store (JsonValue stranger_leaves))) (usersKey ''general''))
      = [alice 900000, bob 700000, carol 400000]
   \<and> snd (leave_room fresh_store (JsonValue bob_leaves)) = Json ()
   \<and> snd (active_users (fst (leave_room fresh_store (JsonValue bob_leaves))) 1000000 ''general'')
      = Json [alice 900000]"
  using leave_room_idempotent [of general_store stranger_leaves "''general''" "''u9''" 1000000]
        leave_room_idempotent [of fresh_store bob_leaves "''general''" "''u2''" 1000000]
  by (simp add: general_store_def fresh_store_def stranger_leaves_def bob_leaves_def
        alice_def bob_def carol_def truthy_def leave_room_def active_users_def
        kv_get_users_def kv_set_users_def Let_def)

section \<open>Messages\<close>

text \<open>
  C8. \<open>get_messages\<close> answers with the list stored for the room as it is: nothing is
  filtered, reordered or cut. A room with no stored list is answered with the empty list,
  not with an error. The handler only reads.
\<close>

theorem get_messages_verbatim:
  assumes "available s"
  shows "snd (get_messages s r) = Json (or_empty (messages_kv s (messagesKey r)))
         \<and> (messages_kv s (messagesKey r) = None \<longrightarrow> snd (get_messages s r) = Json [])
         \<and> messages_kv (fst (get_messages s r)) = messages_kv s
         \<and> users_kv (fst (get_messages s r)) = users_kv s
         \<and> calls (fst (get_messages s r)) = calls s @ [Get (messagesKey r)]"
  using assms by (simp add: get_messages_available or_empty_def)

theorem get_messages_verbatim_witness:
  "available empty_store
   \<and> messages_kv empty_store (messagesKey ''general'') = None
   \<and> snd (get_messages empty_store ''general'') = Json []
   \<and> calls (fst (get_messages empty_store ''general'')) = [Get (messagesKey ''general'')]"
  using get_messages_verbatim [of empty_store "''general''"]
  by (simp add: empty_store_def or_empty_def)

text \<open>
  C1. More than 100 well-formed \<open>send_message\<close> calls to one room whose log is empty
  all succeed, and \<open>get_messages\<close> then answers with exactly the messages returned by
  the last 100 calls, in the order of the calls. The entries of the earlier calls are
  gone: when the messages are pairwise different, none of them occurs in the answer.
  After 101 calls the answer is everything but the first message, and starts with the
  message of the second call.
\<close>

theorem send_message_keeps_last_100:
  assumes "available s" "or_empty (messages_kv s (messagesKey r)) = []" "r \<noteq> []"
    "\<forall>(t_id, t_ts, b) \<in> set xs.
        roomId b = Some r \<and> truthy (username b) \<and> truthy (userId b) \<and> truthy (message b)"
    "100 < length xs"
    "send_all s xs = (s', answers)"
  shows "length answers = length xs
         \<and> (\<forall>a \<in> set answers. \<exists>m. a = Json m)
         \<and> snd (get_messages s' r) = Json (drop (length xs - 100) (map payload answers))
         \<and> length (drop (length xs - 100) (map payload answers)) = 100
         \<and> (distinct (map payload answers) \<longrightarrow>
              (\<forall>i < length xs - 100.
                 payload (answers ! i) \<notin> set (drop (length xs - 100) (map payload answers))))
         \<and> (length xs = 101 \<longrightarrow>
              drop (length xs - 100) (map payload answers) = tl (map payload answers)
              \<and> hd (drop (length xs - 100) (map payload answers)) = payload (answers ! 1))"
proof -
  have len0: "length (or_empty (messages_kv s (messagesKey r))) \<le> 100"
    using assms(2) by simp
  from send_all_log [OF assms(1) assms(3) assms(4) len0] assms(2) assms(6)
  have L: "length answers = length xs" "\<forall>a \<in> set answers. \<exists>m. a = Json m" "available s'"
    "or_empty (messages_kv s' (messagesKey r)) = drop (length xs - 100) (map payload answers)"
    by simp_all
  have A: "snd (get_messages s' r) = Json (drop (length xs - 100) (map payload answers))"
    using L(3,4) by (simp add: get_messages_available)
  have B: "length (drop (length xs - 100) (map payload answers)) = 100"
    using L(1) assms(5) by simp
  have C: "\<forall>i < length xs - 100.
             payload (answers ! i) \<notin> set (drop (length xs - 100) (map payload answers))"
    if d: "distinct (map payload answers)"
  proof (intro allI impI)
    fix i assume i: "i < length xs - 100"
    then have "payload (answers ! i) \<in> set (take (length xs - 100) (map payload answers))"
      using L(1) by (auto simp: in_set_conv_nth intro!: exI [of _ i])
    moreover have "set (take (length xs - 100) (map payload answers))
                     \<inter> set (drop (length xs - 100) (map payload answers)) = {}"
      using d by (rule set_take_disj_set_drop_if_distinct) simp
    ultimately show "payload (answers ! i) \<notin> set (drop (length xs - 100) (map payload answers))"
      by blast
  qed
  have D: "drop (length xs - 100) (map payload answers) = tl (map payload answers)
           \<and> hd (drop (length xs - 100) (map payload answers)) = payload (answers ! 1)"
    if "length xs = 101"
  proof -
    from that L(1) have "length answers = 101" by simp
    then obtain a0 a1 rest where "answers = a0 # a1 # rest"
      by (cases answers; cases "tl answers") auto
    then show ?thesis using that by simp
  qed
  from L(1,2) A B C D show ?thesis by blast
qed

theorem send_message_keeps_last_100_witness:
  "available empty_store
   \<and> or_empty (messages_kv empty_store (messagesKey ''general'')) = []
   \<and> 100 < length hundred_and_one
   \<and> distinct (map payload (snd (send_all empty_store hundred_and_one)))
   \<and> snd (get_messages (fst (send_all empty_store hundred_and_one)) ''general'')
       = Json (drop 1 (map payload (snd (send_all empty_store hundred_and_one))))
   \<and> length (drop 1 (map payload (snd (send_all empty_store hundred_and_one)))) = 100
   \<and> payload (snd (send_all empty_store hundred_and_one) ! 0)
       \<notin> set (drop 1 (map payload (snd (send_all empty_store hundred_and_one))))
   \<and> hd (drop 1 (map payload (snd (send_all empty_store hundred_and_one))))
       = payload (snd (send_all empty_store hundred_and_one) ! 1)"
proof -
  have a: "available empty_store"
    and e: "or_empty (messages_kv empty_store (messagesKey ''general'')) = []"
    by (simp_all add: empty_store_def)
  have n: "length hundred_and_one = 101"
    by (simp add: hundred_and_one_def)
  have g: "''general'' \<noteq> []" by simp
  have l: "100 < length hundred_and_one" using n by simp
  have p: "send_all empty_store hundred_and_one
             = (fst (send_all empty_store hundred_and_one),
                snd (send_all empty_store hundred_and_one))"
    by simp
  have k: "(101::nat) - 100 = 1" by simp
  note R = send_message_keeps_last_100 [OF a e g hundred_and_one_valid l p, unfolded n k]
  from R hundred_and_one_distinct a e l zero_less_one show ?thesis by blast
qed

text \<open>
  C4, as stated, fails: the identifier and the timestamp come from two readings of the
  clock. When the clock advances between them, the identifier does not carry the
  timestamp.
\<close>

theorem send_message_two_clock_readings:
  "snd (send_message empty_store 1000 1001 (JsonValue alice_hi)) =
     Json \<lparr>m_id = ''1000-u1'', m_userId = ''u1'', m_username = ''alice'', m_message = ''hi'',
           m_imageUrl = None, m_timestamp = 1001\<rparr>
   \<and> m_id (payload (snd (send_message empty_store 1000 1001 (JsonValue alice_hi))))
       \<noteq> string_of_int (m_timestamp (payload (snd (send_message empty_store 1000 1001 (JsonValue alice_hi)))))
           @ ''-u1''"
  by (simp add: send_message_def empty_store_def alice_hi_def truthy_def
        kv_get_messages_def kv_set_messages_def Let_def newMessage_def
        string_of_int_1000 string_of_int_1001)

text \<open>
  C4, amended. A well-formed \<open>send_message\<close> answers with the message it built: the
  identifier is the first clock reading in decimal, a hyphen and the sender's id; the
  timestamp is the second clock reading; \<open>userId\<close>, \<open>username\<close> and \<open>message\<close> are those
  of the request, and \<open>imageUrl\<close> is the request's when that is non-empty. The same
  message is the last entry \<open>get_messages\<close> returns afterwards, and the only one when
  the log was empty.
\<close>

theorem send_message_returns_stored_message:
  assumes "available s" "roomId b = Some r" "username b = Some n" "userId b = Some u"
    "message b = Some m" "r \<noteq> []" "n \<noteq> []" "u \<noteq> []" "m \<noteq> []"
  shows "snd (send_message s t_id t_ts (JsonValue b)) =
           Json \<lparr>m_id = string_of_int t_id @ ''-'' @ u, m_userId = u, m_username = n,
                 m_message = m,
                 m_imageUrl = (if truthy (imageUrl b) then imageUrl b else None),
                 m_timestamp = t_ts\<rparr>
         \<and> (\<exists>ms. snd (get_messages (fst (send_message s t_id t_ts (JsonValue b))) r) = Json ms
                \<and> ms \<noteq> []
                \<and> Json (last ms) = snd (send_message s t_id t_ts (JsonValue b))
                \<and> (or_empty (messages_kv s (messagesKey r)) = [] \<longrightarrow> length ms = 1))"
  using assms(1)
  by (simp add: send_message_valid [OF assms] get_messages_available Let_def newMessage_def)

theorem send_message_returns_stored_message_witness:
  "available empty_store
   \<and> snd (send_message empty_store 1000 1000 (JsonValue alice_hi)) =
       Json \<lparr>m_id = ''1000-u1'', m_userId = ''u1'', m_username = ''alice'', m_message = ''hi'',
             m_imageUrl = None, m_timestamp = 1000\<rparr>
   \<and> snd (get_messages (fst (send_message empty_store 1000 1000 (JsonValue alice_hi))) ''general'') =
       Json [\<lparr>m_id = ''1000-u1'', m_userId = ''u1'', m_username = ''alice'', m_message = ''hi'',
              m_imageUrl = None, m_timestamp = 1000\<rparr>]"
  using send_message_returns_stored_message [of empty_store alice_hi "''general''" "''alice''" "''u1''" "''hi''" 1000 1000]
  by (simp add: empty_store_def alice_hi_def truthy_def string_of_int_1000
        send_message_def get_messages_def kv_get_messages_def kv_set_messages_def
        Let_def newMessage_def)

text \<open>
  C5, as stated, fails: a request with a non-empty \<open>imageUrl\<close> and an empty \<open>message\<close>
  is answered with status 400 and nothing is stored.
\<close>

theorem send_message_image_only_rejected:
  "truthy (roomId alice_image_only) \<and> truthy (username alice_image_only)
   \<and> truthy (userId alice_image_only) \<and> truthy (imageUrl alice_image_only)
   \<and> available empty_store
   \<and> send_message empty_store 1000 1000 (JsonValue alice_image_only)
       = (empty_store, Failed 400 ''Missing required fields'')"
  by (simp add: send_message_def alice_image_only_def truthy_def empty_store_def)

text \<open>
  C5, amended. While the store answers, \<open>send_message\<close> succeeds exactly when \<open>roomId\<close>,
  \<open>username\<close>, \<open>userId\<close> and \<open>message\<close> are all present and non-empty. \<open>imageUrl\<close> takes
  no part in the check: without a message the request is answered with status 400,
  image or not.
\<close>

theorem send_message_accepted_iff:
  assumes "available s"
  shows "((\<exists>m. snd (send_message s t_id t_ts (JsonValue b)) = Json m)
            \<longleftrightarrow> truthy (roomId b) \<and> truthy (username b) \<and> truthy (userId b)
                \<and> truthy (message b))
         \<and> (\<not> truthy (message b)
              \<longrightarrow> send_message s t_id t_ts (JsonValue b) = (s, Failed 400 ''Missing required fields''))"
proof (cases "truthy (roomId b) \<and> truthy (username b) \<and> truthy (userId b) \<and> truthy (message b)")
  case True
  then obtain r n u m where
    b: "roomId b = Some r" "username b = Some n" "userId b = Some u" "message b = Some m"
       "r \<noteq> []" "n \<noteq> []" "u \<noteq> []" "m \<noteq> []"
    by (auto simp: truthy_Some)
  from True show ?thesis
    by (simp add: send_message_valid [OF assms b] Let_def)
next
  case False
  then show ?thesis
    by (auto simp: send_message_def)
qed

theorem send_message_accepted_iff_witness:
  "available empty_store
   \<and> snd (send_message empty_store 1000 1000 (JsonValue alice_hi)) =
       Json \<lparr>m_id = ''1000-u1'', m_userId = ''u1'', m_username = ''alice'', m_message = ''hi'',
             m_imageUrl = None, m_timestamp = 1000\<rparr>
   \<and> \<not> truthy (message alice_image_only)
   \<and> send_message empty_store 1000 1000 (JsonValue alice_image_only)
       = (empty_store, Failed 400 ''Missing required fields'')"
  using send_message_accepted_iff [of empty_store 1000 1000 alice_hi] send_message_accepted_iff [of empty_store 1000 1000 alice_image_only]
  by (simp add: empty_store_def alice_hi_def alice_image_only_def truthy_def string_of_int_1000
        send_message_def kv_get_messages_def kv_set_messages_def Let_def newMessage_def)

text \<open>
  C10. The message a well-formed \<open>send_message\<close> returns, which is also the entry it
  stores, has an \<open>imageUrl\<close> exactly when the request's \<open>imageUrl\<close> is a non-empty
  string, and then it is that string; an absent or empty \<open>imageUrl\<close> leaves the field
  out.
\<close>

theorem send_message_imageUrl_normalized:
  assumes "available s" "truthy (roomId b)" "truthy (username b)" "truthy (userId b)"
    "truthy (message b)"
  shows "\<exists>m. snd (send_message s t_id t_ts (JsonValue b)) = Json m
          \<and> m_imageUrl m = (if truthy (imageUrl b) then imageUrl b else None)
          \<and> (m_imageUrl m \<noteq> None \<longleftrightarrow> truthy (imageUrl b))
          \<and> (\<forall>r. roomId b = Some r \<longrightarrow>
                or_empty (messages_kv (fst (send_message s t_id t_ts (JsonValue b))) (messagesKey r)) \<noteq> []
                \<and> last (or_empty (messages_kv (fst (send_message s t_id t_ts (JsonValue b)))
                                    (messagesKey r))) = m)"
proof -
  from assms obtain r n u m where
    b: "roomId b = Some r" "username b = Some n" "userId b = Some u" "message b = Some m"
       "r \<noteq> []" "n \<noteq> []" "u \<noteq> []" "m \<noteq> []"
    by (auto simp: truthy_Some)
  show ?thesis
    using b(1)
    by (auto simp: send_message_valid [OF assms(1) b] Let_def newMessage_def truthy_def
             split: option.splits)
qed

theorem send_message_imageUrl_normalized_witness:
  "available empty_store
   \<and> \<not> truthy (imageUrl alice_hi) \<and> \<not> truthy (imageUrl alice_empty_image)
   \<and> truthy (imageUrl alice_with_image)
   \<and> m_imageUrl (payload (snd (send_message empty_store 1000 1000 (JsonValue alice_hi)))) = None
   \<and> m_imageUrl (payload (snd (send_message empty_store 1000 1000 (JsonValue alice_empty_image)))) = None
   \<and> m_imageUrl (payload (snd (send_message empty_store 1000 1000 (JsonValue alice_with_image))))
       = Some ''https://example.org/cat.png''
   \<and> m_imageUrl (last (or_empty (messages_kv
           (fst (send_message empty_store 1000 1000 (JsonValue alice_empty_image)))
           (messagesKey ''general'')))) = None"
  using send_message_imageUrl_normalized [of empty_store alice_hi 1000 1000]
        send_message_imageUrl_normalized [of empty_store alice_empty_image 1000 1000]
        send_message_imageUrl_normalized [of empty_store alice_with_image 1000 1000]
  by (simp add: empty_store_def alice_hi_def alice_empty_image_def alice_with_image_def
        truthy_def send_message_def kv_get_messages_def kv_set_messages_def Let_def
        newMessage_def)

section \<open>Validation\<close>

text \<open>
  C9, as stated, fails: a request whose body is \<open>null\<close>, or is missing or not JSON, has
  none of the required fields, and is answered with status 500 by the \<open>catch\<close> block,
  not with the validation error.
\<close>

theorem unparsed_body_not_validation_error:
  "join_room general_store 1000000 JsonNull
     = (general_store, Failed 500 ''Failed to join room'')
   \<and> send_message general_store 1000000 1000000 NoJson
     = (general_store, Failed 500 ''Failed to send message'')
   \<and> status (snd (join_room general_store 1000000 JsonNull)) \<noteq> 400
   \<and> status (snd (send_message general_store 1000000 1000000 NoJson)) \<noteq> 400"
  by (simp add: join_room_def send_message_def)

text \<open>
  C9, amended. A \<open>join_room\<close> request whose body is a JSON value other than \<open>null\<close> and
  in which \<open>roomId\<close>, \<open>username\<close> or \<open>userId\<close> is missing or empty, and such a
  \<open>send_message\<close> request in which one of these or \<open>message\<close> is missing or empty, is
  answered with status 400, and the store is left exactly as it was: no value changed and
  no call of the store issued, since the check comes before the first read. A request
  whose body is \<open>null\<close>, or is missing or not JSON, is answered with status 500, and the
  store is left exactly as it was too.
\<close>

theorem validation_before_store:
  "(\<not> truthy (roomId b) \<or> \<not> truthy (username b) \<or> \<not> truthy (userId b)
      \<longrightarrow> join_room s now (JsonValue b) = (s, Failed 400 ''Missing required fields''))
   \<and> (\<not> truthy (roomId b) \<or> \<not> truthy (username b) \<or> \<not> truthy (userId b)
        \<or> \<not> truthy (message b)
      \<longrightarrow> send_message s t_id t_ts (JsonValue b) = (s, Failed 400 ''Missing required fields''))
   \<and> join_room s now NoJson = (s, Failed 500 ''Failed to join room'')
   \<and> join_room s now JsonNull = (s, Failed 500 ''Failed to join room'')
   \<and> send_message s t_id t_ts NoJson = (s, Failed 500 ''Failed to send message'')
   \<and> send_message s t_id t_ts JsonNull = (s, Failed 500 ''Failed to send message'')"
  by (simp add: join_room_def send_message_def)

theorem validation_before_store_witness:
  "\<not> truthy (username nameless)
   \<and> join_room general_store 1000000 (JsonValue nameless)
        = (general_store, Failed 400 ''Missing required fields'')
   \<and> \<not> truthy (message alice_image_only)
   \<and> send_message general_store 1000000 1000000 (JsonValue alice_image_only)
        = (general_store, Failed 400 ''Missing required fields'')
   \<and> join_room general_store 1000000 NoJson
        = (general_store, Failed 500 ''Failed to join room'')
   \<and> send_message general_store 1000000 1000000 JsonNull
        = (general_store, Failed 500 ''Failed to send message'')"
  using validation_before_store [of nameless general_store 1000000 1000000 1000000]
        validation_before_store [of alice_image_only general_store 1000000 1000000 1000000]
  by (simp add: nameless_def alice_image_only_def truthy_def)

end
